theory Spec2Isabelle
  imports Complex_Main "HOL-Library.AList"
begin

section \<open>Data model\<close>

text \<open>
  The embedding follows \<^verbatim>\<open>src/app/utils/rate_limiter.py\<close>.

  \<^item> Clock readings (\<^verbatim>\<open>time.time()\<close>) are passed in as an explicit argument of type
    \<open>real\<close>, and sums and differences of them are exact; the two parameters of a limiter
    are Python integers (\<open>int\<close>).
  \<^item> \<^verbatim>\<open>request_history\<close> is a \<^verbatim>\<open>defaultdict(deque)\<close>. A Python dictionary keeps its
    keys in insertion order and the code iterates over it and takes its length, so it is an
    association list; a deque of timestamps is a list, oldest first.
  \<^item> The dictionaries of \<^verbatim>\<open>AdvancedRateLimiter\<close> are only indexed, so they are maps.
  \<^item> Every operation returns its result together with the state it leaves behind.
  \<^item> The exceptions the code can raise are values of \<open>error\<close>.
\<close>

datatype error = ValueError string | KeyError string

record rate_limiter =
  max_requests :: int
  time_window :: int
  request_history :: "(string \<times> real list) list"

record client_status =
  client_id :: string
  requests_used :: int
  requests_remaining :: int
  status_max_requests :: int
  status_time_window :: int
  reset_time :: "real option"
  is_limited :: bool

record limiter_stats =
  total_clients :: int
  active_clients :: int
  limited_clients :: int
  total_requests_tracked :: int
  max_requests_per_window :: int
  time_window_seconds :: int

record advanced_rate_limiter =
  limiters :: "string \<rightharpoonup> rate_limiter"
  client_tiers :: "string \<rightharpoonup> string"

section \<open>RateLimiter\<close>

text \<open>
  \<^verbatim>\<open>__init__\<close> stores its two arguments and an empty history. It has no check and no
  \<^verbatim>\<open>raise\<close>; the result is a sum so that failure of construction can be talked about.
\<close>

definition RateLimiter_init :: "int \<Rightarrow> int \<Rightarrow> error + rate_limiter" where
  "RateLimiter_init mr tw =
     Inr \<lparr>max_requests = mr, time_window = tw, request_history = []\<rparr>"

text \<open>
  \<^verbatim>\<open>self.request_history[client_id]\<close> on a \<^verbatim>\<open>defaultdict(deque)\<close>: the stored deque, or
  a new empty one that is inserted under the key. The insertion shows in the state once the
  deque is written back with \<open>AList.update\<close>, which replaces the value of an existing key
  in place and appends a new key at the end, as a Python dictionary does.
\<close>

definition history_of :: "(string \<times> real list) list \<Rightarrow> string \<Rightarrow> real list" where
  "history_of h cid = (case map_of h cid of None \<Rightarrow> [] | Some q \<Rightarrow> q)"

text \<open>
  The loop
  \<^verbatim>\<open>while client_requests and client_requests[0] <= current_time - self.time_window:
      client_requests.popleft()\<close>
  with \<open>cutoff = current_time - time_window\<close>.
\<close>

fun popleft_old :: "real \<Rightarrow> real list \<Rightarrow> real list" where
  "popleft_old cutoff [] = []"
| "popleft_old cutoff (t # ts) = (if t \<le> cutoff then popleft_old cutoff ts else t # ts)"

definition allow_request :: "rate_limiter \<Rightarrow> real \<Rightarrow> string \<Rightarrow> bool \<times> rate_limiter" where
  "allow_request self current_time cid =
     (let client_requests =
            popleft_old (current_time - real_of_int (time_window self))
              (history_of (request_history self) cid)
      in if int (length client_requests) \<ge> max_requests self
         then (False,
               self\<lparr>request_history := AList.update cid client_requests (request_history self)\<rparr>)
         else (True,
               self\<lparr>request_history :=
                      AList.update cid (client_requests @ [current_time]) (request_history self)\<rparr>))"

definition get_client_status ::
  "rate_limiter \<Rightarrow> real \<Rightarrow> string \<Rightarrow> client_status \<times> rate_limiter" where
  "get_client_status self current_time cid =
     (let client_requests =
            popleft_old (current_time - real_of_int (time_window self))
              (history_of (request_history self) cid);
          used = int (length client_requests);
          remaining = max 0 (max_requests self - used);
          reset = (case client_requests of [] \<Rightarrow> None
                   | t # _ \<Rightarrow> Some (t + real_of_int (time_window self)))
      in (\<lparr>client_id = cid,
           requests_used = used,
           requests_remaining = remaining,
           status_max_requests = max_requests self,
           status_time_window = time_window self,
           reset_time = reset,
           is_limited = (used \<ge> max_requests self)\<rparr>,
          self\<lparr>request_history := AList.update cid client_requests (request_history self)\<rparr>))"

definition reset_client :: "rate_limiter \<Rightarrow> string \<Rightarrow> bool \<times> rate_limiter" where
  "reset_client self cid =
     (if cid \<in> set (map fst (request_history self))
      then (True, self\<lparr>request_history := AList.delete cid (request_history self)\<rparr>)
      else (False, self))"

text \<open>
  \<^verbatim>\<open>cleanup_old_entries\<close>: the first loop trims every deque in place and collects the keys
  whose deque is empty; the second loop deletes the collected keys.
\<close>

definition cleanup_old_entries :: "rate_limiter \<Rightarrow> real \<Rightarrow> rate_limiter" where
  "cleanup_old_entries self current_time =
     (let trimmed =
            map (\<lambda>(cid, requests).
                   (cid, popleft_old (current_time - real_of_int (time_window self)) requests))
                (request_history self);
          clients_to_remove = map fst (filter (\<lambda>(cid, requests). requests = []) trimmed)
      in self\<lparr>request_history := foldl (\<lambda>h cid. AList.delete cid h) trimmed clients_to_remove\<rparr>)"

text \<open>
  \<^verbatim>\<open>get_stats\<close>: the loop over \<^verbatim>\<open>self.request_history.values()\<close> with its two
  counters, \<open>(active_clients, limited_clients)\<close>.
\<close>

fun stats_loop :: "real \<Rightarrow> int \<Rightarrow> (string \<times> real list) list \<Rightarrow> int \<times> int \<Rightarrow> int \<times> int" where
  "stats_loop cutoff mr [] (active, limited) = (active, limited)"
| "stats_loop cutoff mr ((cid, requests) # rest) (active, limited) =
     (let recent_requests = filter (\<lambda>r. r > cutoff) requests
      in if recent_requests \<noteq> []
         then (if int (length recent_requests) \<ge> mr
               then stats_loop cutoff mr rest (active + 1, limited + 1)
               else stats_loop cutoff mr rest (active + 1, limited))
         else stats_loop cutoff mr rest (active, limited))"

definition get_stats :: "rate_limiter \<Rightarrow> real \<Rightarrow> limiter_stats \<times> rate_limiter" where
  "get_stats self current_time =
     (let counts = stats_loop (current_time - real_of_int (time_window self))
                     (max_requests self) (request_history self) (0, 0)
      in (\<lparr>total_clients = int (length (request_history self)),
           active_clients = fst counts,
           limited_clients = snd counts,
           total_requests_tracked =
             sum_list (map (\<lambda>(cid, requests). int (length requests)) (request_history self)),
           max_requests_per_window = max_requests self,
           time_window_seconds = time_window self\<rparr>,
          self))"

section \<open>AdvancedRateLimiter\<close>

definition AdvancedRateLimiter_init :: advanced_rate_limiter where
  "AdvancedRateLimiter_init = \<lparr>limiters = Map.empty, client_tiers = Map.empty\<rparr>"

definition add_tier ::
  "advanced_rate_limiter \<Rightarrow> string \<Rightarrow> int \<Rightarrow> int \<Rightarrow> (error + unit) \<times> advanced_rate_limiter" where
  "add_tier self tier_name mr tw =
     (case RateLimiter_init mr tw of
        Inl e \<Rightarrow> (Inl e, self)
      | Inr limiter \<Rightarrow> (Inr (), self\<lparr>limiters := (limiters self)(tier_name \<mapsto> limiter)\<rparr>))"

definition tier_not_found :: "string \<Rightarrow> string" where
  "tier_not_found tier_name = ''Tier '' @ [CHR 0x27] @ tier_name @ [CHR 0x27] @ '' not found''"

definition set_client_tier ::
  "advanced_rate_limiter \<Rightarrow> string \<Rightarrow> string \<Rightarrow> (error + unit) \<times> advanced_rate_limiter" where
  "set_client_tier self cid tier_name =
     (if limiters self tier_name = None
      then (Inl (ValueError (tier_not_found tier_name)), self)
      else (Inr (), self\<lparr>client_tiers := (client_tiers self)(cid \<mapsto> tier_name)\<rparr>))"

text \<open>
  \<^verbatim>\<open>AdvancedRateLimiter.allow_request\<close>. The limiter of the tier is an object that
  \<^verbatim>\<open>RateLimiter.allow_request\<close> mutates in place, so its new state is stored back under
  the tier's name. \<^verbatim>\<open>self.limiters[tier_name]\<close> raises \<^verbatim>\<open>KeyError\<close> for a missing key.
\<close>

definition tier_of :: "advanced_rate_limiter \<Rightarrow> string \<Rightarrow> string" where
  "tier_of self cid = (case client_tiers self cid of None \<Rightarrow> ''default'' | Some t \<Rightarrow> t)"

definition adv_allow_request ::
  "advanced_rate_limiter \<Rightarrow> real \<Rightarrow> string \<Rightarrow> (error + bool) \<times> advanced_rate_limiter" where
  "adv_allow_request self current_time cid =
     (let tier_name = tier_of self cid;
          (r, self1) = (if limiters self tier_name = None
                        then add_tier self ''default'' 60 60
                        else (Inr (), self))
      in case r of
           Inl e \<Rightarrow> (Inl e, self1)
         | Inr _ \<Rightarrow>
             (case limiters self1 tier_name of
                None \<Rightarrow> (Inl (KeyError tier_name), self1)
              | Some limiter \<Rightarrow>
                  (let (ok, limiter1) = allow_request limiter current_time cid
                   in (Inr ok, self1\<lparr>limiters := (limiters self1)(tier_name \<mapsto> limiter1)\<rparr>))))"

section \<open>Traces of operations\<close>

text \<open>
  A trace is a list of calls on one \<^verbatim>\<open>RateLimiter\<close>, each with the clock reading it
  sees. \<^verbatim>\<open>get_all_clients_status\<close> is the sequence of \<^verbatim>\<open>get_client_status\<close> calls over
  the tracked clients, so it is a trace of \<open>Status\<close> calls.
\<close>

datatype call = Allow string | Status string | Reset string | Cleanup | Stats

fun exec :: "rate_limiter \<Rightarrow> real \<times> call \<Rightarrow> rate_limiter" where
  "exec self (now, Allow cid) = snd (allow_request self now cid)"
| "exec self (now, Status cid) = snd (get_client_status self now cid)"
| "exec self (now, Reset cid) = snd (reset_client self cid)"
| "exec self (now, Cleanup) = cleanup_old_entries self now"
| "exec self (now, Stats) = snd (get_stats self now)"

fun run :: "rate_limiter \<Rightarrow> (real \<times> call) list \<Rightarrow> rate_limiter" where
  "run self [] = self"
| "run self (e # es) = run (exec self e) es"


text \<open>
  Well-formedness of a history: a dictionary has each key once; and the bound on the length
  of every stored deque that \<^verbatim>\<open>allow_request\<close> maintains.
\<close>

definition keys_distinct :: "rate_limiter \<Rightarrow> bool" where
  "keys_distinct self = distinct (map fst (request_history self))"

definition history_bounded :: "rate_limiter \<Rightarrow> bool" where
  "history_bounded self =
     list_all (\<lambda>(cid, q). int (length q) \<le> max (max_requests self) 0) (request_history self)"

section \<open>Basic facts about the history\<close>

lemma popleft_old_dropWhile: "popleft_old cutoff ts = dropWhile (\<lambda>t. t \<le> cutoff) ts"
  by (induction ts) simp_all


lemma history_of_untracked: "cid \<notin> set (map fst h) \<Longrightarrow> history_of h cid = []"
  by (simp add: history_of_def map_of_eq_None_iff[THEN iffD2])


lemma allow_request_fresh_client:
  "0 < max_requests self \<Longrightarrow> history_of (request_history self) cid = []
     \<Longrightarrow> fst (allow_request self now cid)"
  by (simp add: allow_request_def)

lemma add_tier_registers:
  "fst (add_tier self tier_name mr tw) = Inr ()
   \<and> limiters (snd (add_tier self tier_name mr tw)) tier_name
       = Some \<lparr>max_requests = mr, time_window = tw, request_history = []\<rparr>
   \<and> (\<forall>n. n \<noteq> tier_name \<longrightarrow> limiters (snd (add_tier self tier_name mr tw)) n = limiters self n)
   \<and> client_tiers (snd (add_tier self tier_name mr tw)) = client_tiers self"
  by (simp add: add_tier_def RateLimiter_init_def)

section \<open>Admission: \<^verbatim>\<open>RateLimiter.allow_request\<close>\<close>



section \<open>Construction: \<^verbatim>\<open>RateLimiter.__init__\<close>\<close>

text \<open>
  Claim C3 says that construction with \<open>max_requests \<le> 0\<close> or \<open>time_window \<le> 0\<close> fails.
  The constructor has no check: at \<open>(0, 0)\<close> it returns a limiter.
\<close>

theorem RateLimiter_init_no_validation_counterexample:
  "\<not> ((0::int) \<le> 0 \<or> (0::int) \<le> 0 \<longrightarrow> isl (RateLimiter_init 0 0))"
  by (simp add: RateLimiter_init_def)

text \<open>
  Claim C3, amended. Construction never fails: for every \<open>max_requests\<close> and
  \<open>time_window\<close>, non-positive ones included, it returns a limiter that stores the two
  values as given, with an empty history.
\<close>

theorem RateLimiter_init_always_succeeds:
  "RateLimiter_init mr tw = Inr \<lparr>max_requests = mr, time_window = tw, request_history = []\<rparr>"
  by (simp add: RateLimiter_init_def)

section \<open>Tier assignment: \<^verbatim>\<open>AdvancedRateLimiter.set_client_tier\<close>\<close>

text \<open>
  Claim C4. \<^verbatim>\<open>set_client_tier(client_id, name)\<close> raises when \<open>name\<close> is not a key of
  \<^verbatim>\<open>limiters\<close> (keys enter that dictionary through \<^verbatim>\<open>add_tier\<close> only, see
  \<open>add_tier_registers\<close>), and then leaves the whole object, the client-to-tier mapping
  included, as it was. The exception is the source's \<^verbatim>\<open>ValueError("Tier '...' not found")\<close>,
  which the specification calls \<^verbatim>\<open>UnknownTierError\<close>. When \<open>name\<close> is registered the call
  succeeds and maps the client to \<open>name\<close>, whatever the client was mapped to before; the
  other clients and the tiers are untouched.
\<close>

theorem set_client_tier_spec:
  "(limiters self tier_name = None \<longrightarrow>
      set_client_tier self cid tier_name = (Inl (ValueError (tier_not_found tier_name)), self))
   \<and> (limiters self tier_name \<noteq> None \<longrightarrow>
        fst (set_client_tier self cid tier_name) = Inr ()
        \<and> client_tiers (snd (set_client_tier self cid tier_name)) cid = Some tier_name
        \<and> (\<forall>c. c \<noteq> cid \<longrightarrow> client_tiers (snd (set_client_tier self cid tier_name)) c = client_tiers self c)
        \<and> limiters (snd (set_client_tier self cid tier_name)) = limiters self)"
  by (simp add: set_client_tier_def)

theorem set_client_tier_spec_witness:
  "set_client_tier AdvancedRateLimiter_init ''c'' ''nonexistent''
     = (Inl (ValueError (tier_not_found ''nonexistent'')), AdvancedRateLimiter_init)
   \<and> client_tiers (snd (set_client_tier
        (snd (set_client_tier (snd (add_tier (snd (add_tier AdvancedRateLimiter_init ''free'' 5 60)) ''premium'' 100 60)) ''c'' ''free''))
        ''c'' ''premium'')) ''c'' = Some ''premium''"
proof -
  let ?A = "snd (add_tier (snd (add_tier AdvancedRateLimiter_init ''free'' 5 60)) ''premium'' 100 60)"
  have a: "limiters AdvancedRateLimiter_init ''nonexistent'' = None"
    by (simp add: AdvancedRateLimiter_init_def)
  have b: "limiters ?A ''free'' \<noteq> None" "limiters ?A ''premium'' \<noteq> None"
    by (simp_all add: add_tier_def RateLimiter_init_def)
  have c: "limiters (snd (set_client_tier ?A ''c'' ''free'')) ''premium'' \<noteq> None"
    using b by (simp add: set_client_tier_def)
  show ?thesis
    using set_client_tier_spec [of AdvancedRateLimiter_init "''nonexistent''" "''c''"]
      set_client_tier_spec [of "snd (set_client_tier ?A ''c'' ''free'')" "''premium''" "''c''"] a c
    by simp
qed

section \<open>Status query: \<^verbatim>\<open>RateLimiter.get_client_status\<close>\<close>



section \<open>Reset: \<^verbatim>\<open>RateLimiter.reset_client\<close>\<close>

text \<open>
  Claim C7. \<^verbatim>\<open>reset_client(client_id)\<close> returns true exactly when the client is a key of
  the history beforehand; afterwards the client is not tracked and has no history, the other
  clients are untouched, and a call on an untracked client returns false and changes
  nothing. With \<open>max_requests > 0\<close> the \<^verbatim>\<open>allow_request\<close> that follows the reset is
  admitted, whatever the client's history was before the reset.
\<close>

theorem reset_client_spec:
  "fst (reset_client self cid) = (cid \<in> set (map fst (request_history self)))
   \<and> cid \<notin> set (map fst (request_history (snd (reset_client self cid))))
   \<and> history_of (request_history (snd (reset_client self cid))) cid = []
   \<and> (\<forall>c. c \<noteq> cid \<longrightarrow> map_of (request_history (snd (reset_client self cid))) c
                          = map_of (request_history self) c)
   \<and> (cid \<notin> set (map fst (request_history self)) \<longrightarrow> snd (reset_client self cid) = self)
   \<and> (0 < max_requests self \<longrightarrow> fst (allow_request (snd (reset_client self cid)) now cid))"
proof -
  have gone: "cid \<notin> set (map fst (request_history (snd (reset_client self cid))))"
    by (simp add: reset_client_def delete_notin_dom)
  have empty: "history_of (request_history (snd (reset_client self cid))) cid = []"
    using gone by (rule history_of_untracked)
  have params: "max_requests (snd (reset_client self cid)) = max_requests self"
    by (simp add: reset_client_def)
  have admit: "0 < max_requests self \<longrightarrow> fst (allow_request (snd (reset_client self cid)) now cid)"
    using empty params by (simp add: allow_request_fresh_client)
  have others: "\<forall>c. c \<noteq> cid \<longrightarrow> map_of (request_history (snd (reset_client self cid))) c
                          = map_of (request_history self) c"
    by (simp add: reset_client_def delete_conv')
  have res: "fst (reset_client self cid) = (cid \<in> set (map fst (request_history self)))"
    by (simp add: reset_client_def)
  have same: "cid \<notin> set (map fst (request_history self)) \<longrightarrow> snd (reset_client self cid) = self"
    by (simp add: reset_client_def)
  from res gone empty others same admit show ?thesis by blast
qed

theorem reset_client_spec_witness:
  "\<not> fst (allow_request \<lparr>max_requests = 1, time_window = 10, request_history = [(''a'', [5])]\<rparr> 6 ''a'')
   \<and> fst (reset_client \<lparr>max_requests = 1, time_window = 10, request_history = [(''a'', [5])]\<rparr> ''a'')
   \<and> fst (allow_request (snd (reset_client
        \<lparr>max_requests = 1, time_window = 10, request_history = [(''a'', [5])]\<rparr> ''a'')) 6 ''a'')
   \<and> \<not> fst (reset_client \<lparr>max_requests = 1, time_window = 10, request_history = [(''a'', [5])]\<rparr> ''b'')"
proof -
  have full: "\<not> fst (allow_request
      \<lparr>max_requests = 1, time_window = 10, request_history = [(''a'', [5])]\<rparr> 6 ''a'')"
    by (simp add: allow_request_def history_of_def)
  show ?thesis
    using full
      reset_client_spec [of "\<lparr>max_requests = 1, time_window = 10, request_history = [(''a'', [5])]\<rparr>" "''a''" 6]
      reset_client_spec [of "\<lparr>max_requests = 1, time_window = 10, request_history = [(''a'', [5])]\<rparr>" "''b''" 6]
    by simp
qed

section \<open>Bounded per-client history\<close>

lemma set_update_subset: "set (AList.update k v h) \<subseteq> insert (k, v) (set h)"
  by (induction h) auto

lemma set_delete_subset: "set (AList.delete k h) \<subseteq> set h"
  by (induction h) auto

lemma set_foldl_delete_subset: "set (foldl (\<lambda>h cid. AList.delete cid h) h ks) \<subseteq> set h"
proof (induction ks arbitrary: h)
  case Nil
  show ?case by simp
next
  case (Cons k ks)
  have "set (foldl (\<lambda>h cid. AList.delete cid h) (AList.delete k h) ks) \<subseteq> set (AList.delete k h)"
    by (rule Cons.IH)
  also have "\<dots> \<subseteq> set h" by (rule set_delete_subset)
  finally show ?case by simp
qed

lemma history_of_cases: "history_of h c = [] \<or> (c, history_of h c) \<in> set h"
  by (auto simp: history_of_def split: option.splits dest: map_of_SomeD)

lemma length_popleft_old: "length (popleft_old cutoff ts) \<le> length ts"
  by (simp add: popleft_old_dropWhile length_dropWhile_le)

lemma history_boundedD:
  "history_bounded self \<Longrightarrow> (c, q) \<in> set (request_history self)
     \<Longrightarrow> int (length q) \<le> max (max_requests self) 0"
  by (auto simp: history_bounded_def list_all_iff)

lemma history_bounded_lookup:
  assumes "history_bounded self"
  shows "int (length (history_of (request_history self) c)) \<le> max (max_requests self) 0"
  using history_of_cases[of "request_history self" c] history_boundedD[OF assms] by auto

lemma history_bounded_update:
  assumes "history_bounded self" "int (length q) \<le> max (max_requests self) 0"
  shows "history_bounded (self\<lparr>request_history := AList.update c q (request_history self)\<rparr>)"
  using assms set_update_subset[of c q "request_history self"]
  by (auto simp: history_bounded_def list_all_iff)

lemma allow_request_bounded:
  assumes "history_bounded self"
  shows "history_bounded (snd (allow_request self now cid))"
proof -
  let ?kept = "popleft_old (now - real_of_int (time_window self)) (history_of (request_history self) cid)"
  have k: "int (length ?kept) \<le> max (max_requests self) 0"
    using history_bounded_lookup[OF assms, of cid]
      length_popleft_old[of "now - real_of_int (time_window self)" "history_of (request_history self) cid"]
    by linarith
  show ?thesis
  proof (cases "int (length ?kept) \<ge> max_requests self")
    case True
    then show ?thesis using history_bounded_update[OF assms k] by (simp add: allow_request_def)
  next
    case False
    then have "int (length (?kept @ [now])) \<le> max (max_requests self) 0" by simp
    from history_bounded_update[OF assms this] False show ?thesis
      by (simp add: allow_request_def)
  qed
qed

lemma get_client_status_bounded:
  assumes "history_bounded self"
  shows "history_bounded (snd (get_client_status self now cid))"
proof -
  let ?kept = "popleft_old (now - real_of_int (time_window self)) (history_of (request_history self) cid)"
  have k: "int (length ?kept) \<le> max (max_requests self) 0"
    using history_bounded_lookup[OF assms, of cid]
      length_popleft_old[of "now - real_of_int (time_window self)" "history_of (request_history self) cid"]
    by linarith
  show ?thesis using history_bounded_update[OF assms k] by (simp add: get_client_status_def Let_def)
qed

lemma reset_client_bounded:
  assumes "history_bounded self"
  shows "history_bounded (snd (reset_client self cid))"
  using assms set_delete_subset[of cid "request_history self"]
  by (auto simp: reset_client_def history_bounded_def list_all_iff)

lemma cleanup_old_entries_entry:
  assumes "(c, q) \<in> set (request_history (cleanup_old_entries self now))"
  shows "\<exists>q0. (c, q0) \<in> set (request_history self)
               \<and> q = popleft_old (now - real_of_int (time_window self)) q0"
proof -
  let ?trimmed = "map (\<lambda>(cid, requests).
       (cid, popleft_old (now - real_of_int (time_window self)) requests)) (request_history self)"
  from assms have "(c, q) \<in> set ?trimmed"
    using set_foldl_delete_subset[of ?trimmed]
    unfolding cleanup_old_entries_def Let_def by auto
  then show ?thesis by auto
qed

lemma cleanup_old_entries_bounded:
  assumes "history_bounded self"
  shows "history_bounded (cleanup_old_entries self now)"
proof -
  have "int (length q) \<le> max (max_requests self) 0"
    if "(c, q) \<in> set (request_history (cleanup_old_entries self now))" for c q
  proof -
    from cleanup_old_entries_entry[OF that] obtain q0
      where q0: "(c, q0) \<in> set (request_history self)"
        "q = popleft_old (now - real_of_int (time_window self)) q0" by blast
    from history_boundedD[OF assms q0(1)]
      length_popleft_old[of "now - real_of_int (time_window self)" q0]
    have "int (length (popleft_old (now - real_of_int (time_window self)) q0))
            \<le> max (max_requests self) 0" by linarith
    then show ?thesis by (simp add: q0(2))
  qed
  moreover have "max_requests (cleanup_old_entries self now) = max_requests self"
    by (simp add: cleanup_old_entries_def Let_def)
  ultimately show ?thesis
    by (auto simp: history_bounded_def list_all_iff)
qed

lemma exec_max_requests: "max_requests (exec self e) = max_requests self"
  by (cases e; cases "snd e")
     (auto simp: allow_request_def get_client_status_def reset_client_def
        cleanup_old_entries_def get_stats_def Let_def)

lemma exec_time_window: "time_window (exec self e) = time_window self"
  by (cases e; cases "snd e")
     (auto simp: allow_request_def get_client_status_def reset_client_def
        cleanup_old_entries_def get_stats_def Let_def)

lemma exec_bounded: "history_bounded self \<Longrightarrow> history_bounded (exec self e)"
  by (cases e; cases "snd e")
     (auto simp: allow_request_bounded get_client_status_bounded reset_client_bounded
        cleanup_old_entries_bounded get_stats_def Let_def)

lemma run_max_requests: "max_requests (run self es) = max_requests self"
  by (induction es arbitrary: self) (simp_all add: exec_max_requests)

lemma run_time_window: "time_window (run self es) = time_window self"
  by (induction es arbitrary: self) (simp_all add: exec_time_window)

lemma run_bounded: "history_bounded self \<Longrightarrow> history_bounded (run self es)"
  by (induction es arbitrary: self) (simp_all add: exec_bounded)

text \<open>
  Claim C10. From a limiter built with any \<open>max_requests\<close>, after any sequence of calls
  (at any clock readings, resets and clean-ups included) every tracked client's stored
  sequence has length at most \<open>max max_requests 0\<close>: only \<^verbatim>\<open>allow_request\<close> appends, and
  only when the count after the trim is strictly below \<open>max_requests\<close>; every other
  operation stores a trimmed sequence or deletes one. No call to
  \<^verbatim>\<open>cleanup_old_entries\<close> is needed for the bound.
\<close>

theorem history_length_invariant:
  assumes "RateLimiter_init mr tw = Inr l0"
  shows "\<forall>(cid, q) \<in> set (request_history (run l0 es)). int (length q) \<le> max mr 0"
proof -
  from assms have l0: "l0 = \<lparr>max_requests = mr, time_window = tw, request_history = []\<rparr>"
    by (simp add: RateLimiter_init_def)
  then have "history_bounded l0" by (simp add: history_bounded_def)
  then have "history_bounded (run l0 es)" by (rule run_bounded)
  moreover have "max_requests (run l0 es) = mr" using l0 by (simp add: run_max_requests)
  ultimately show ?thesis by (auto simp: history_bounded_def list_all_iff)
qed

theorem history_length_invariant_witness:
  "RateLimiter_init 2 10 = Inr \<lparr>max_requests = 2, time_window = 10, request_history = []\<rparr>
   \<and> request_history (run \<lparr>max_requests = 2, time_window = 10, request_history = []\<rparr>
          [(0, Allow ''a''), (1, Allow ''a''), (2, Allow ''a''), (3, Allow ''b'')])
       = [(''a'', [0, 1]), (''b'', [3])]
   \<and> int (length (history_of (request_history
          (run \<lparr>max_requests = 2, time_window = 10, request_history = []\<rparr>
          [(0, Allow ''a''), (1, Allow ''a''), (2, Allow ''a''), (3, Allow ''b'')])) ''a''))
       \<le> max 2 0
   \<and> int (length (history_of (request_history
          (run \<lparr>max_requests = 2, time_window = 10, request_history = []\<rparr>
          [(0, Allow ''a''), (1, Allow ''a''), (2, Allow ''a''), (3, Allow ''b'')])) ''b''))
       \<le> max 2 0"
proof -
  let ?l0 = "\<lparr>max_requests = 2, time_window = 10, request_history = []\<rparr>"
  let ?es = "[(0::real, Allow ''a''), (1, Allow ''a''), (2, Allow ''a''), (3, Allow ''b'')]"
  have c: "RateLimiter_init 2 10 = Inr ?l0"
    by (simp add: RateLimiter_init_def)
  have r: "request_history (run ?l0 ?es) = [(''a'', [0, 1]), (''b'', [3])]"
    by (simp add: allow_request_def history_of_def)
  have a: "(''a'', history_of (request_history (run ?l0 ?es)) ''a'') \<in> set (request_history (run ?l0 ?es))"
    and b: "(''b'', history_of (request_history (run ?l0 ?es)) ''b'') \<in> set (request_history (run ?l0 ?es))"
    unfolding r by (simp_all add: history_of_def)
  from history_length_invariant [OF c, of ?es] a b
  have "int (length (history_of (request_history (run ?l0 ?es)) ''a'')) \<le> max 2 0
      \<and> int (length (history_of (request_history (run ?l0 ?es)) ''b'')) \<le> max 2 0"
    by blast
  with c r show ?thesis by blast
qed

section \<open>Clean-up: \<^verbatim>\<open>RateLimiter.cleanup_old_entries\<close>\<close>

lemma keys_foldl_delete:
  "map fst (foldl (\<lambda>h cid. AList.delete cid h) h ks) = filter (\<lambda>k. k \<notin> set ks) (map fst h)"
proof (induction ks arbitrary: h)
  case Nil
  show ?case by simp
next
  case (Cons k ks)
  have "filter (\<lambda>x. x \<notin> set ks) (removeAll k (map fst h))
          = filter (\<lambda>x. x \<notin> set (k # ks)) (map fst h)"
    by (induction h) auto
  then show ?case by (simp add: Cons.IH delete_keys)
qed

lemma map_of_foldl_delete:
  "map_of (foldl (\<lambda>h cid. AList.delete cid h) h ks) c = (if c \<in> set ks then None else map_of h c)"
  by (induction ks arbitrary: h) (auto simp: delete_conv')

lemma keys_trimmed: "map fst (map (\<lambda>(cid, requests). (cid, f requests)) h) = map fst h"
  by (induction h) auto

lemma map_of_trimmed:
  "map_of (map (\<lambda>(cid, requests). (cid, f requests)) h) c = map_option f (map_of h c)"
  by (induction h) auto

lemma cleanup_old_entries_history:
  "request_history (cleanup_old_entries self now)
     = foldl (\<lambda>h cid. AList.delete cid h)
         (map (\<lambda>(cid, requests).
                 (cid, popleft_old (now - real_of_int (time_window self)) requests))
              (request_history self))
         (map fst (filter (\<lambda>(cid, requests). requests = [])
            (map (\<lambda>(cid, requests).
                    (cid, popleft_old (now - real_of_int (time_window self)) requests))
                 (request_history self))))"
  by (simp add: cleanup_old_entries_def Let_def)

lemma cleanup_old_entries_lookup:
  assumes "keys_distinct self"
  shows "map_of (request_history (cleanup_old_entries self now)) c
           = (case map_of (request_history self) c of
                None \<Rightarrow> None
              | Some q \<Rightarrow>
                  (if popleft_old (now - real_of_int (time_window self)) q = [] then None
                   else Some (popleft_old (now - real_of_int (time_window self)) q)))"
proof -
  let ?f = "popleft_old (now - real_of_int (time_window self))"
  let ?trimmed = "map (\<lambda>(cid, requests). (cid, ?f requests)) (request_history self)"
  have d: "distinct (map fst ?trimmed)"
    unfolding keys_trimmed using assms by (simp add: keys_distinct_def)
  have mem: "c \<in> set (map fst (filter (\<lambda>(cid, requests). requests = []) ?trimmed))
               \<longleftrightarrow> map_of ?trimmed c = Some []"
  proof -
    have "c \<in> set (map fst (filter (\<lambda>(cid, requests). requests = []) ?trimmed))
            \<longleftrightarrow> (c, []) \<in> set ?trimmed"
      by force
    also have "\<dots> \<longleftrightarrow> map_of ?trimmed c = Some []"
      using d by simp
    finally show ?thesis .
  qed
  have "map_of (request_history (cleanup_old_entries self now)) c
          = (if map_of ?trimmed c = Some [] then None else map_of ?trimmed c)"
    by (simp only: cleanup_old_entries_history map_of_foldl_delete mem)
  then show ?thesis
    by (simp add: map_of_trimmed split: option.splits)
qed

lemma cleanup_old_entries_all_stale:
  assumes "\<forall>(c, q) \<in> set (request_history self). \<forall>t \<in> set q. t + real_of_int (time_window self) < now"
  shows "request_history (cleanup_old_entries self now) = []"
proof -
  let ?f = "popleft_old (now - real_of_int (time_window self))"
  let ?trimmed = "map (\<lambda>(cid, requests). (cid, ?f requests)) (request_history self)"
  have e: "\<forall>(c, q) \<in> set ?trimmed. q = []"
    using assms by (fastforce simp: popleft_old_dropWhile)
  then have f: "filter (\<lambda>(cid, requests). requests = []) ?trimmed = ?trimmed"
    by (intro filter_True) auto
  have rh: "request_history (cleanup_old_entries self now)
              = foldl (\<lambda>h cid. AList.delete cid h) ?trimmed
                  (map fst (filter (\<lambda>(cid, requests). requests = []) ?trimmed))"
    by (rule cleanup_old_entries_history)
  have "map fst (request_history (cleanup_old_entries self now))
               = filter (\<lambda>k. k \<notin> set (map fst ?trimmed)) (map fst ?trimmed)"
    by (simp only: rh f keys_foldl_delete)
  also have "\<dots> = []" by (simp add: filter_empty_conv)
  finally show ?thesis by simp
qed

text \<open>
  Claim C8. \<^verbatim>\<open>cleanup_old_entries\<close> at clock reading \<open>now\<close> trims every tracked
  client's sequence from the head (the timestamps \<open>\<le> now - time_window\<close>) and removes
  every client whose sequence is left empty: on a history with each key once, as a
  dictionary has it, a client is tracked afterwards exactly when its trimmed sequence is
  not empty, and then with that sequence. If \<open>now\<close> exceeds every stored timestamp by more
  than \<open>time_window\<close>, the history is empty afterwards and \<^verbatim>\<open>get_stats\<close> reports
  \<open>total_clients = 0\<close>.
\<close>

theorem cleanup_old_entries_spec:
  "(keys_distinct self \<longrightarrow>
      (\<forall>c. map_of (request_history (cleanup_old_entries self now)) c
             = (case map_of (request_history self) c of
                  None \<Rightarrow> None
                | Some q \<Rightarrow>
                    (let kept = dropWhile (\<lambda>t. t \<le> now - real_of_int (time_window self)) q
                     in if kept = [] then None else Some kept))))
   \<and> ((\<forall>(c, q) \<in> set (request_history self).
          \<forall>t \<in> set q. t + real_of_int (time_window self) < now) \<longrightarrow>
        request_history (cleanup_old_entries self now) = []
        \<and> total_clients (fst (get_stats (cleanup_old_entries self now) now')) = 0)"
proof -
  have a: "keys_distinct self \<longrightarrow>
      (\<forall>c. map_of (request_history (cleanup_old_entries self now)) c
             = (case map_of (request_history self) c of
                  None \<Rightarrow> None
                | Some q \<Rightarrow>
                    (let kept = dropWhile (\<lambda>t. t \<le> now - real_of_int (time_window self)) q
                     in if kept = [] then None else Some kept)))"
    by (auto simp: cleanup_old_entries_lookup popleft_old_dropWhile Let_def split: option.splits)
  have b: "(\<forall>(c, q) \<in> set (request_history self).
          \<forall>t \<in> set q. t + real_of_int (time_window self) < now) \<longrightarrow>
        request_history (cleanup_old_entries self now) = []
        \<and> total_clients (fst (get_stats (cleanup_old_entries self now) now')) = 0"
    using cleanup_old_entries_all_stale[of self now] by (simp add: get_stats_def Let_def)
  from a b show ?thesis by (rule conjI)
qed

theorem cleanup_old_entries_spec_witness:
  "keys_distinct \<lparr>max_requests = 2, time_window = 10,
       request_history = [(''a'', [0, 5]), (''b'', [1]), (''c'', [])]\<rparr>
   \<and> map_of (request_history (cleanup_old_entries \<lparr>max_requests = 2, time_window = 10,
       request_history = [(''a'', [0, 5]), (''b'', [1]), (''c'', [])]\<rparr> 12)) ''a'' = Some [5]
   \<and> map_of (request_history (cleanup_old_entries \<lparr>max_requests = 2, time_window = 10,
       request_history = [(''a'', [0, 5]), (''b'', [1]), (''c'', [])]\<rparr> 12)) ''b'' = None
   \<and> request_history (cleanup_old_entries \<lparr>max_requests = 2, time_window = 10,
       request_history = [(''a'', [0, 5]), (''b'', [1]), (''c'', [])]\<rparr> 16) = []
   \<and> total_clients (fst (get_stats (cleanup_old_entries \<lparr>max_requests = 2, time_window = 10,
       request_history = [(''a'', [0, 5]), (''b'', [1]), (''c'', [])]\<rparr> 16) 16)) = 0"
proof -
  let ?S = "\<lparr>max_requests = 2, time_window = 10,
       request_history = [(''a'', [0, 5]), (''b'', [1]), (''c'', [])]\<rparr>"
  have kd: "keys_distinct ?S" by (simp add: keys_distinct_def)
  have stale: "\<forall>(c, q) \<in> set (request_history ?S). \<forall>t \<in> set q. t + real_of_int (time_window ?S) < 16"
    by simp
  from cleanup_old_entries_spec [of ?S 12] kd
  have look: "\<forall>c. map_of (request_history (cleanup_old_entries ?S 12)) c
             = (case map_of (request_history ?S) c of
                  None \<Rightarrow> None
                | Some q \<Rightarrow>
                    (let kept = dropWhile (\<lambda>t. t \<le> 12 - real_of_int (time_window ?S)) q
                     in if kept = [] then None else Some kept))"
    by blast
  have a: "map_of (request_history (cleanup_old_entries ?S 12)) ''a'' = Some [5]"
    using look[rule_format, of "''a''"] by simp
  have b: "map_of (request_history (cleanup_old_entries ?S 12)) ''b'' = None"
    using look[rule_format, of "''b''"] by simp
  from cleanup_old_entries_spec [of ?S 16 16] stale
  have e: "request_history (cleanup_old_entries ?S 16) = []
        \<and> total_clients (fst (get_stats (cleanup_old_entries ?S 16) 16)) = 0"
    by blast
  from kd a b e show ?thesis by blast
qed

section \<open>Statistics: \<^verbatim>\<open>RateLimiter.get_stats\<close>\<close>

lemma stats_loop_counts:
  "stats_loop cutoff mr h (a, l)
     = (a + int (length (filter (\<lambda>(cid, q). \<exists>t \<in> set q. t > cutoff) h)),
        l + int (length (filter (\<lambda>(cid, q). (\<exists>t \<in> set q. t > cutoff)
                                   \<and> int (length (filter (\<lambda>t. t > cutoff) q)) \<ge> mr) h)))"
proof (induction h arbitrary: a l)
  case Nil
  show ?case by simp
next
  case (Cons p h)
  obtain cid q where p: "p = (cid, q)" by (cases p)
  have ne: "filter (\<lambda>r. r > cutoff) q \<noteq> [] \<longleftrightarrow> (\<exists>t \<in> set q. t > cutoff)"
    by (simp add: filter_empty_conv)
  show ?case
    unfolding p by (simp add: Cons.IH ne Let_def)
qed

text \<open>
  Claim C9. \<^verbatim>\<open>get_stats\<close> returns the limiter as it found it. \<open>total_clients\<close> is the
  number of keys and \<open>total_requests_tracked\<close> the number of stored timestamps, stale ones
  included; \<open>active_clients\<close> counts the clients with a timestamp strictly newer than
  \<open>now - time_window\<close>, and \<open>limited_clients\<close> those among them with at least
  \<open>max_requests\<close> such timestamps. So there are states in which \<^verbatim>\<open>get_stats\<close> counts
  clients and timestamps that \<^verbatim>\<open>cleanup_old_entries\<close>, \<^verbatim>\<open>get_client_status\<close> or
  \<^verbatim>\<open>allow_request\<close> at the same instant would have pruned, while its count of active
  clients is zero.
\<close>

theorem get_stats_spec:
  "(snd (get_stats self now) = self
    \<and> total_clients (fst (get_stats self now)) = int (length (request_history self))
    \<and> total_requests_tracked (fst (get_stats self now))
        = (\<Sum>(cid, q) \<leftarrow> request_history self. int (length q))
    \<and> active_clients (fst (get_stats self now))
        = int (length (filter (\<lambda>(cid, q). \<exists>t \<in> set q. t > now - real_of_int (time_window self))
                 (request_history self)))
    \<and> limited_clients (fst (get_stats self now))
        = int (length (filter (\<lambda>(cid, q). (\<exists>t \<in> set q. t > now - real_of_int (time_window self))
                   \<and> int (length (filter (\<lambda>t. t > now - real_of_int (time_window self)) q))
                        \<ge> max_requests self)
                 (request_history self)))
    \<and> max_requests_per_window (fst (get_stats self now)) = max_requests self
    \<and> time_window_seconds (fst (get_stats self now)) = time_window self)
   \<and> (\<exists>s t. total_clients (fst (get_stats s t))
                > total_clients (fst (get_stats (cleanup_old_entries s t) t))
            \<and> total_requests_tracked (fst (get_stats s t))
                > total_requests_tracked (fst (get_stats (snd (get_client_status s t ''a'')) t))
            \<and> total_requests_tracked (fst (get_stats s t))
                > total_requests_tracked (fst (get_stats (snd (allow_request s t ''a'')) t))
            \<and> active_clients (fst (get_stats s t)) = 0)"
proof -
  have "total_clients (fst (get_stats \<lparr>max_requests = 2, time_window = 10,
            request_history = [(''a'', [0, 1, 2])]\<rparr> 100))
        > total_clients (fst (get_stats (cleanup_old_entries \<lparr>max_requests = 2, time_window = 10,
            request_history = [(''a'', [0, 1, 2])]\<rparr> 100) 100))
      \<and> total_requests_tracked (fst (get_stats \<lparr>max_requests = 2, time_window = 10,
            request_history = [(''a'', [0, 1, 2])]\<rparr> 100))
        > total_requests_tracked (fst (get_stats (snd (get_client_status \<lparr>max_requests = 2,
            time_window = 10, request_history = [(''a'', [0, 1, 2])]\<rparr> 100 ''a'')) 100))
      \<and> total_requests_tracked (fst (get_stats \<lparr>max_requests = 2, time_window = 10,
            request_history = [(''a'', [0, 1, 2])]\<rparr> 100))
        > total_requests_tracked (fst (get_stats (snd (allow_request \<lparr>max_requests = 2,
            time_window = 10, request_history = [(''a'', [0, 1, 2])]\<rparr> 100 ''a'')) 100))
      \<and> active_clients (fst (get_stats \<lparr>max_requests = 2, time_window = 10,
            request_history = [(''a'', [0, 1, 2])]\<rparr> 100)) = 0"
    by (simp add: get_stats_def cleanup_old_entries_def get_client_status_def allow_request_def
          history_of_def Let_def)
  then have ex: "\<exists>s t. total_clients (fst (get_stats s t))
                > total_clients (fst (get_stats (cleanup_old_entries s t) t))
            \<and> total_requests_tracked (fst (get_stats s t))
                > total_requests_tracked (fst (get_stats (snd (get_client_status s t ''a'')) t))
            \<and> total_requests_tracked (fst (get_stats s t))
                > total_requests_tracked (fst (get_stats (snd (allow_request s t ''a'')) t))
            \<and> active_clients (fst (get_stats s t)) = 0"
    by blast
  have un: "snd (get_stats self now) = self
    \<and> total_clients (fst (get_stats self now)) = int (length (request_history self))
    \<and> total_requests_tracked (fst (get_stats self now))
        = (\<Sum>(cid, q) \<leftarrow> request_history self. int (length q))
    \<and> active_clients (fst (get_stats self now))
        = int (length (filter (\<lambda>(cid, q). \<exists>t \<in> set q. t > now - real_of_int (time_window self))
                 (request_history self)))
    \<and> limited_clients (fst (get_stats self now))
        = int (length (filter (\<lambda>(cid, q). (\<exists>t \<in> set q. t > now - real_of_int (time_window self))
                   \<and> int (length (filter (\<lambda>t. t > now - real_of_int (time_window self)) q))
                        \<ge> max_requests self)
                 (request_history self)))
    \<and> max_requests_per_window (fst (get_stats self now)) = max_requests self
    \<and> time_window_seconds (fst (get_stats self now)) = time_window self"
    by (simp add: get_stats_def Let_def stats_loop_counts)
  from un ex show ?thesis by (rule conjI)
qed

theorem get_stats_spec_witness:
  "snd (get_stats \<lparr>max_requests = 2, time_window = 10,
            request_history = [(''a'', [0, 95, 96]), (''b'', [1]), (''c'', [99])]\<rparr> 100)
     = \<lparr>max_requests = 2, time_window = 10,
            request_history = [(''a'', [0, 95, 96]), (''b'', [1]), (''c'', [99])]\<rparr>
   \<and> total_clients (fst (get_stats \<lparr>max_requests = 2, time_window = 10,
            request_history = [(''a'', [0, 95, 96]), (''b'', [1]), (''c'', [99])]\<rparr> 100)) = 3
   \<and> total_requests_tracked (fst (get_stats \<lparr>max_requests = 2, time_window = 10,
            request_history = [(''a'', [0, 95, 96]), (''b'', [1]), (''c'', [99])]\<rparr> 100)) = 5
   \<and> active_clients (fst (get_stats \<lparr>max_requests = 2, time_window = 10,
            request_history = [(''a'', [0, 95, 96]), (''b'', [1]), (''c'', [99])]\<rparr> 100)) = 2
   \<and> limited_clients (fst (get_stats \<lparr>max_requests = 2, time_window = 10,
            request_history = [(''a'', [0, 95, 96]), (''b'', [1]), (''c'', [99])]\<rparr> 100)) = 1"
  using get_stats_spec [of "\<lparr>max_requests = 2, time_window = 10,
            request_history = [(''a'', [0, 95, 96]), (''b'', [1]), (''c'', [99])]\<rparr>" 100]
  by simp

section \<open>Default tier: \<^verbatim>\<open>AdvancedRateLimiter.allow_request\<close>\<close>

text \<open>
  Claim C5 says that a client with no tier assignment is governed by the 60-requests-per-60-
  seconds policy from first contact. The fallback is only taken when no tier named
  \<^verbatim>\<open>default\<close> exists: after \<^verbatim>\<open>add_tier('default', 1, 60)\<close> an unassigned client is
  admitted at time 0 and rejected at time 1, where a 60/60 limiter admits both requests.
\<close>

theorem default_tier_fallback_counterexample:
  "client_tiers (snd (add_tier AdvancedRateLimiter_init ''default'' 1 60)) ''c'' = None
   \<and> fst (adv_allow_request (snd (add_tier AdvancedRateLimiter_init ''default'' 1 60)) 0 ''c'')
       = Inr True
   \<and> client_tiers (snd (adv_allow_request
         (snd (add_tier AdvancedRateLimiter_init ''default'' 1 60)) 0 ''c'')) ''c'' = None
   \<and> fst (adv_allow_request (snd (adv_allow_request
         (snd (add_tier AdvancedRateLimiter_init ''default'' 1 60)) 0 ''c'')) 1 ''c'')
       = Inr False
   \<and> fst (allow_request (snd (allow_request
         \<lparr>max_requests = 60, time_window = 60, request_history = []\<rparr> 0 ''c'')) 1 ''c'')"
  by (simp add: adv_allow_request_def add_tier_def RateLimiter_init_def AdvancedRateLimiter_init_def
        tier_of_def allow_request_def history_of_def Let_def)

text \<open>
  Claim C5, amended. \<^verbatim>\<open>allow_request(client_id)\<close> for a client with no tier assignment
  resolves to the tier named \<^verbatim>\<open>default\<close>. If that tier is not registered, the call
  registers it as a new limiter of 60 requests per 60 seconds and returns what that new
  limiter's \<^verbatim>\<open>allow_request\<close> returns for the client, keeping the limiter under
  \<^verbatim>\<open>default\<close>: the client is then governed by the 60/60 policy from first contact. If a
  tier named \<^verbatim>\<open>default\<close> is registered already, with whatever policy, the call returns
  what that limiter's \<^verbatim>\<open>allow_request\<close> returns and the client is governed by that
  tier's policy.
\<close>

theorem adv_allow_request_unassigned:
  assumes "client_tiers self cid = None"
  shows "(limiters self ''default'' = None \<longrightarrow>
            adv_allow_request self now cid
              = (Inr (fst (allow_request
                       \<lparr>max_requests = 60, time_window = 60, request_history = []\<rparr> now cid)),
                 self\<lparr>limiters := (limiters self)(''default'' \<mapsto>
                        snd (allow_request
                          \<lparr>max_requests = 60, time_window = 60, request_history = []\<rparr> now cid))\<rparr>))
         \<and> (\<forall>l. limiters self ''default'' = Some l \<longrightarrow>
               adv_allow_request self now cid
                 = (Inr (fst (allow_request l now cid)),
                    self\<lparr>limiters := (limiters self)(''default'' \<mapsto> snd (allow_request l now cid))\<rparr>))"
  using assms
  by (simp add: adv_allow_request_def add_tier_def RateLimiter_init_def tier_of_def
        split_beta Let_def)

theorem adv_allow_request_unassigned_witness:
  "client_tiers AdvancedRateLimiter_init ''c'' = None
   \<and> fst (adv_allow_request AdvancedRateLimiter_init 0 ''c'') = Inr True
   \<and> map_option max_requests (limiters (snd (adv_allow_request AdvancedRateLimiter_init 0 ''c'')) ''default'')
       = Some 60
   \<and> map_option time_window (limiters (snd (adv_allow_request AdvancedRateLimiter_init 0 ''c'')) ''default'')
       = Some 60
   \<and> map_option request_history (limiters (snd (adv_allow_request AdvancedRateLimiter_init 0 ''c'')) ''default'')
       = Some [(''c'', [0])]"
proof -
  have u: "client_tiers AdvancedRateLimiter_init ''c'' = None"
    by (simp add: AdvancedRateLimiter_init_def)
  have n: "limiters AdvancedRateLimiter_init ''default'' = None"
    by (simp add: AdvancedRateLimiter_init_def)
  have a: "allow_request \<lparr>max_requests = 60, time_window = 60, request_history = []\<rparr> 0 ''c''
             = (True, \<lparr>max_requests = 60, time_window = 60, request_history = [(''c'', [0])]\<rparr>)"
    by (simp add: allow_request_def history_of_def)
  show ?thesis
    using adv_allow_request_unassigned [OF u, of 0] u n a by simp
qed

section \<open>Bounded admission\<close>


lemma allow_request_keys_distinct:
  "keys_distinct self \<Longrightarrow> keys_distinct (snd (allow_request self now cid))"
  by (simp add: keys_distinct_def allow_request_def Let_def distinct_update)

lemma get_client_status_keys_distinct:
  "keys_distinct self \<Longrightarrow> keys_distinct (snd (get_client_status self now cid))"
  by (simp add: keys_distinct_def get_client_status_def Let_def distinct_update)

lemma reset_client_keys_distinct:
  "keys_distinct self \<Longrightarrow> keys_distinct (snd (reset_client self cid))"
  by (simp add: keys_distinct_def reset_client_def distinct_delete)

lemma cleanup_old_entries_keys_distinct:
  assumes "keys_distinct self"
  shows "keys_distinct (cleanup_old_entries self now)"
proof -
  have "distinct (map fst (request_history (cleanup_old_entries self now)))"
    using assms
    by (simp only: cleanup_old_entries_history keys_foldl_delete keys_trimmed
          keys_distinct_def distinct_filter)
  then show ?thesis by (simp add: keys_distinct_def)
qed

lemma exec_keys_distinct: "keys_distinct self \<Longrightarrow> keys_distinct (exec self e)"
  by (cases e; cases "snd e")
     (auto simp: allow_request_keys_distinct get_client_status_keys_distinct
        reset_client_keys_distinct cleanup_old_entries_keys_distinct get_stats_def Let_def)

lemma run_keys_distinct: "keys_distinct self \<Longrightarrow> keys_distinct (run self es)"
  by (induction es arbitrary: self) (simp_all add: exec_keys_distinct)











end
